theory Spec2Isabelle
  imports Main "HOL-Library.Sublist" "HOL-Library.Multiset"
begin

section \<open>JavaScript values and strings\<close>

text \<open>
  Probe results arrive as values of TypeScript type \<^verbatim>\<open>unknown\<close>: data parsed from
  JSON. They are modelled by the datatype below. An object is the list of its own
  enumerable entries in the order \<^verbatim>\<open>Object.entries\<close> yields them; a property that is
  not in the list reads as \<^verbatim>\<open>undefined\<close>. Numbers are the integers (fractions, NaN and the
  infinities are outside the model). Strings are byte strings: every operation below is
  exact on ASCII text; case mapping and white space beyond ASCII are not modelled. A
  property read and a table lookup find own entries only, so a key or a probe name that
  names a member of \<^verbatim>\<open>Object.prototype\<close> (such as \<^verbatim>\<open>constructor\<close>) is outside the model
  as well.
\<close>

datatype jsval =
    JUndefined
  | JNull
  | JBool bool
  | JNum int
  | JStr string
  | JArr "jsval list"
  | JObj "(string \<times> jsval) list"

text \<open>Property read \<^verbatim>\<open>obj.k\<close> on the entries of an object.\<close>

definition get_prop :: "(string \<times> jsval) list \<Rightarrow> string \<Rightarrow> jsval" where
  "get_prop kvs k = (case map_of kvs k of Some v \<Rightarrow> v | None \<Rightarrow> JUndefined)"

text \<open>JavaScript truthiness: what \<^verbatim>\<open>if (v)\<close> tests.\<close>

fun truthy :: "jsval \<Rightarrow> bool" where
  "truthy JUndefined = False"
| "truthy JNull = False"
| "truthy (JBool b) = b"
| "truthy (JNum n) = (n \<noteq> 0)"
| "truthy (JStr s) = (s \<noteq> [])"
| "truthy (JArr xs) = True"
| "truthy (JObj kvs) = True"

text \<open>\<^verbatim>\<open>v === null || v === undefined\<close>, the test behind \<^verbatim>\<open>??\<close>.\<close>

fun nullish :: "jsval \<Rightarrow> bool" where
  "nullish JUndefined = True"
| "nullish JNull = True"
| "nullish v = False"

text \<open>Decimal text of a number.\<close>

definition digit_char :: "nat \<Rightarrow> char" where
  "digit_char d = char_of (of_char (CHR ''0'') + d)"

fun decimal :: "nat \<Rightarrow> string" where
  "decimal n =
     (if 10 \<le> n then decimal (n div 10) @ [digit_char (n mod 10)] else [digit_char n])"

declare decimal.simps [simp del]

definition decimal_int :: "int \<Rightarrow> string" where
  "decimal_int i = (if 0 \<le> i then decimal (nat i) else CHR ''-'' # decimal (nat (- i)))"

text \<open>Joining strings with a separator.\<close>

fun intercalate :: "string \<Rightarrow> string list \<Rightarrow> string" where
  "intercalate sep [] = []"
| "intercalate sep [x] = x"
| "intercalate sep (x # y # ys) = x @ sep @ intercalate sep (y # ys)"

text \<open>
  \<^verbatim>\<open>String(v)\<close>. An array is the comma-joined text of its elements, where
  \<^verbatim>\<open>null\<close> and \<^verbatim>\<open>undefined\<close> elements give the empty string; a plain object is
  \<^verbatim>\<open>[object Object]\<close>.
\<close>

fun js_String :: "jsval \<Rightarrow> string" where
  "js_String JUndefined = ''undefined''"
| "js_String JNull = ''null''"
| "js_String (JBool b) = (if b then ''true'' else ''false'')"
| "js_String (JNum n) = decimal_int n"
| "js_String (JStr s) = s"
| "js_String (JArr xs) =
     intercalate '',''
       (map (\<lambda>x. if nullish x then [] else js_String x) xs)"
| "js_String (JObj kvs) = ''[object Object]''"

text \<open>\<^verbatim>\<open>arr.join(sep)\<close> on the elements of an array.\<close>

definition join :: "string \<Rightarrow> jsval list \<Rightarrow> string" where
  "join sep xs = intercalate sep (map (\<lambda>x. if nullish x then [] else js_String x) xs)"

text \<open>
  \<^verbatim>\<open>JSON.stringify(v)\<close> for an object or an array. Strings are quoted and escaped;
  an \<^verbatim>\<open>undefined\<close> array element prints as \<^verbatim>\<open>null\<close>, an \<^verbatim>\<open>undefined\<close> property is
  left out.
\<close>

definition hex_digit :: "nat \<Rightarrow> char" where
  "hex_digit d = (if d < 10 then digit_char d else char_of (of_char (CHR ''a'') + (d - 10)))"

definition json_escape :: "char \<Rightarrow> string" where
  "json_escape c =
     (let n = (of_char c :: nat) in
      if n = 0x22 then [CHR 0x5C, CHR 0x22]
      else if n = 0x5C then [CHR 0x5C, CHR 0x5C]
      else if n = 0x08 then [CHR 0x5C, CHR ''b'']
      else if n = 0x09 then [CHR 0x5C, CHR ''t'']
      else if n = 0x0A then [CHR 0x5C, CHR ''n'']
      else if n = 0x0C then [CHR 0x5C, CHR ''f'']
      else if n = 0x0D then [CHR 0x5C, CHR ''r'']
      else if n < 0x20 then
        [CHR 0x5C, CHR ''u'', CHR ''0'', CHR ''0'', hex_digit (n div 16), hex_digit (n mod 16)]
      else [c])"

definition json_quote :: "string \<Rightarrow> string" where
  "json_quote s = CHR 0x22 # concat (map json_escape s) @ [CHR 0x22]"

fun JSON_stringify :: "jsval \<Rightarrow> string" where
  "JSON_stringify JUndefined = ''null''"
| "JSON_stringify JNull = ''null''"
| "JSON_stringify (JBool b) = (if b then ''true'' else ''false'')"
| "JSON_stringify (JNum n) = decimal_int n"
| "JSON_stringify (JStr s) = json_quote s"
| "JSON_stringify (JArr xs) =
     ''['' @ intercalate '','' (map (\<lambda>x. JSON_stringify x) xs) @ '']''"
| "JSON_stringify (JObj kvs) =
     ''{'' @ intercalate '',''
        (map (\<lambda>kv. json_quote (fst kv) @ '':'' @ JSON_stringify (snd kv))
           (filter (\<lambda>kv. snd kv \<noteq> JUndefined) kvs)) @ ''}''"

text \<open>\<^verbatim>\<open>s.includes(t)\<close> and \<^verbatim>\<open>s.startsWith(t)\<close>.\<close>

definition str_includes :: "string \<Rightarrow> string \<Rightarrow> bool" where
  "str_includes s t = sublist t s"

definition startsWith :: "string \<Rightarrow> string \<Rightarrow> bool" where
  "startsWith s t = prefix t s"

text \<open>\<^verbatim>\<open>s.toUpperCase()\<close> on ASCII letters.\<close>

definition upper_char :: "char \<Rightarrow> char" where
  "upper_char c =
     (let n = (of_char c :: nat) in if 97 \<le> n \<and> n \<le> 122 then char_of (n - 32) else c)"

definition toUpperCase :: "string \<Rightarrow> string" where
  "toUpperCase s = map upper_char s"

text \<open>\<^verbatim>\<open>s.split('\n')\<close>: the pieces between line feeds; never the empty list.\<close>

fun split_lines :: "string \<Rightarrow> string list" where
  "split_lines [] = [[]]"
| "split_lines (c # cs) =
     (if c = CHR 0x0A then [] # split_lines cs
      else (case split_lines cs of l # ls \<Rightarrow> (c # l) # ls | [] \<Rightarrow> [[c]]))"

text \<open>\<^verbatim>\<open>s.trim()\<close>: white space removed at both ends.\<close>

definition is_space :: "char \<Rightarrow> bool" where
  "is_space c = ((of_char c :: nat) \<in> {0x09, 0x0A, 0x0B, 0x0C, 0x0D, 0x20})"

definition trim :: "string \<Rightarrow> string" where
  "trim s = rev (dropWhile is_space (rev (dropWhile is_space s)))"

section \<open>The probe result normaliser\<close>

text \<open>\<^verbatim>\<open>src/lib/utils/probeResult.ts\<close>: the two result shapes.\<close>

record ParsedFinding =
  severity :: string
  title :: string
  description :: "string option"
  evidence :: "string option"
  remediation :: "string option"
  owasp_id :: "string option"
  cwe_id :: "string option"
  confidence :: "string option"

record NormalizedProbeResult =
  lines :: "string list"
  findings :: "ParsedFinding list"
  hasVulnerability :: bool
  hasError :: bool
  vulnerabilities :: "string list"
  banner :: "string option"

text \<open>
  An optional narrative field of a finding: \<^verbatim>\<open>if (finding.k) parsed.k = String(finding.k)\<close>.
\<close>

definition opt_field :: "(string \<times> jsval) list \<Rightarrow> string \<Rightarrow> string option" where
  "opt_field finding k =
     (if truthy (get_prop finding k) then Some (js_String (get_prop finding k)) else None)"

text \<open>
  One entry of \<^verbatim>\<open>obj.findings\<close> (lines 65 to 78): the severity is the upper-cased text of
  the entry's severity, \<^verbatim>\<open>INFO\<close> when that is \<^verbatim>\<open>null\<close> or \<^verbatim>\<open>undefined\<close>; the cast to the
  severity type checks nothing at run time.
\<close>

definition parse_finding :: "(string \<times> jsval) list \<Rightarrow> ParsedFinding" where
  "parse_finding finding =
     \<lparr> severity =
         toUpperCase
           (js_String (if nullish (get_prop finding ''severity'') then JStr ''INFO''
                       else get_prop finding ''severity'')),
       title =
         js_String (if nullish (get_prop finding ''title'') then JStr []
                    else get_prop finding ''title''),
       description = opt_field finding ''description'',
       evidence = opt_field finding ''evidence'',
       remediation = opt_field finding ''remediation'',
       owasp_id = opt_field finding ''owasp_id'',
       cwe_id = opt_field finding ''cwe_id'',
       confidence = opt_field finding ''confidence'' \<rparr>"

definition isVuln :: "string \<Rightarrow> bool" where
  "isVuln sev = (sev = ''CRITICAL'' \<or> sev = ''HIGH'' \<or> sev = ''MEDIUM'')"

text \<open>
  The three arrays the normaliser fills while it reads a structured result.
\<close>

record acc =
  acc_lines :: "string list"
  acc_findings :: "ParsedFinding list"
  acc_vulnerabilities :: "string list"

text \<open>
  Body of the loop over \<^verbatim>\<open>obj.findings\<close> (lines 64 to 87). An entry that is not an object
  is skipped; an array is an object to \<^verbatim>\<open>typeof\<close> and has none of the fields read.
\<close>

definition record_finding :: "(string \<times> jsval) list \<Rightarrow> acc \<Rightarrow> acc" where
  "record_finding finding a =
     (let parsed = parse_finding finding;
          label = ''VULNERABILITY: ['' @ severity parsed @ ''] '' @ title parsed
      in if isVuln (severity parsed)
         then a\<lparr> acc_findings := acc_findings a @ [parsed],
                 acc_vulnerabilities := acc_vulnerabilities a @ [label],
                 acc_lines := acc_lines a @ [label] \<rparr>
         else a\<lparr> acc_findings := acc_findings a @ [parsed],
                 acc_lines := acc_lines a @ [''['' @ severity parsed @ ''] '' @ title parsed] \<rparr>)"

fun finding_step :: "jsval \<Rightarrow> acc \<Rightarrow> acc" where
  "finding_step (JObj finding) a = record_finding finding a"
| "finding_step (JArr xs) a = record_finding [] a"
| "finding_step v a = a"

text \<open>
  Body of the loop over the legacy list \<^verbatim>\<open>obj.vulnerabilities\<close> (lines 99 to 106): an
  entry is skipped when a recorded vulnerability equals it or contains it.
\<close>

definition legacy_step :: "jsval \<Rightarrow> acc \<Rightarrow> acc" where
  "legacy_step v a =
     (let vs = js_String v
      in if \<not> (vs \<in> set (acc_vulnerabilities a))
            \<and> \<not> list_ex (\<lambda>existing. str_includes existing vs) (acc_vulnerabilities a)
         then a\<lparr> acc_vulnerabilities := acc_vulnerabilities a @ [vs],
                 acc_lines := acc_lines a @ [''VULNERABILITY: '' @ vs] \<rparr>
         else a)"

text \<open>
  The patterns the field rendering repeats: a line for a truthy field, a line for a
  non-empty array, a line for a boolean.
\<close>

definition push :: "string list \<Rightarrow> acc \<Rightarrow> acc" where
  "push ls a = a\<lparr> acc_lines := acc_lines a @ ls \<rparr>"

definition text_line :: "string \<Rightarrow> jsval \<Rightarrow> string list" where
  "text_line label v = (if truthy v then [label @ js_String v] else [])"

definition list_line :: "string \<Rightarrow> jsval \<Rightarrow> string list" where
  "list_line label v =
     (case v of JArr xs \<Rightarrow> if length xs > 0 then [label @ join '', '' xs] else []
      | _ \<Rightarrow> [])"

definition yes_no_line :: "string \<Rightarrow> jsval \<Rightarrow> string list" where
  "yes_no_line label v =
     (case v of JBool b \<Rightarrow> [label @ (if b then ''Yes'' else ''No'')] | _ \<Rightarrow> [])"

definition handled :: "string list" where
  "handled =
     [''banner'', ''auth_methods'', ''vulnerabilities'', ''accepted_credentials'', ''error'',
      ''server_type'', ''features'', ''anonymous_access'', ''write_access'', ''tls_supported'',
      ''directory_listing'', ''negotiation_options'', ''system_info'',
      ''server_hostname'', ''max_message_size'', ''starttls'', ''open_relay'',
      ''vrfy_enabled'', ''expn_enabled'',
      ''ssh_version'', ''weak_algorithms'',
      ''version'', ''os'', ''config_writable'', ''db_size'', ''connected_clients'',
      ''auth_plugin'', ''protocol_byte'',
      ''security_types'', ''security_type_labels'',
      ''server'', ''title'', ''technologies'', ''dangerous_methods'',
      ''powered_by'', ''generator'', ''vpn_endpoints'',
      ''findings'']"

text \<open>
  Body of the loop over the remaining keys (lines 227 to 235). \<^verbatim>\<open>typeof val\<close> is
  \<^verbatim>\<open>object\<close> for arrays and objects (\<^verbatim>\<open>null\<close> has been excluded before).
\<close>

definition is_object :: "jsval \<Rightarrow> bool" where
  "is_object v = (case v of JNull \<Rightarrow> True | JArr xs \<Rightarrow> True | JObj kvs \<Rightarrow> True | _ \<Rightarrow> False)"

definition other_key_step :: "string \<times> jsval \<Rightarrow> acc \<Rightarrow> acc" where
  "other_key_step kv a =
     (if fst kv \<notin> set handled \<and> \<not> nullish (snd kv) then
        (let valStr = (if is_object (snd kv) then JSON_stringify (snd kv) else js_String (snd kv));
             a' = push [fst kv @ '': '' @ valStr] a
         in if str_includes valStr ''VULNERABILITY''
            then a'\<lparr> acc_vulnerabilities := acc_vulnerabilities a' @ [valStr] \<rparr>
            else a')
      else a)"

text \<open>
  The lines pushed between the legacy vulnerability list and the loop over the remaining
  keys (lines 109 to 211), in the order of the source. The dangerous HTTP methods are
  shown only when no structured finding was parsed.
\<close>

definition field_lines :: "(string \<times> jsval) list \<Rightarrow> ParsedFinding list \<Rightarrow> string list" where
  "field_lines obj fs = concat
     [ list_line ''Accepted credentials: '' (get_prop obj ''accepted_credentials''),
       text_line ''Server type: '' (get_prop obj ''server_type''),
       list_line ''Features: '' (get_prop obj ''features''),
       (if get_prop obj ''anonymous_access'' = JBool True then [''Anonymous access: Yes''] else []),
       (if get_prop obj ''write_access'' = JBool True then [''Write access: Yes''] else []),
       yes_no_line ''TLS support: '' (get_prop obj ''tls_supported''),
       (case get_prop obj ''directory_listing'' of
          JArr xs \<Rightarrow>
            if length xs > 0
            then (''Directory listing ('' @ decimal (length xs) @ '' entries):'')
                   # map (\<lambda>entry. ''  '' @ js_String entry) xs
            else []
        | _ \<Rightarrow> []),
       list_line ''Negotiation: '' (get_prop obj ''negotiation_options''),
       text_line ''System: '' (get_prop obj ''system_info''),
       text_line ''Server hostname: '' (get_prop obj ''server_hostname''),
       text_line ''Max message size: '' (get_prop obj ''max_message_size''),
       text_line ''SSH version: '' (get_prop obj ''ssh_version''),
       (case get_prop obj ''weak_algorithms'' of
          JArr xs \<Rightarrow> if length xs > 0 then map (\<lambda>algo. ''Weak '' @ js_String algo) xs else []
        | _ \<Rightarrow> []),
       text_line ''Version: '' (get_prop obj ''version''),
       text_line ''OS: '' (get_prop obj ''os''),
       yes_no_line ''CONFIG writable: '' (get_prop obj ''config_writable''),
       (case get_prop obj ''db_size'' of
          JNum n \<Rightarrow> [''DB size: '' @ decimal_int n @ '' keys'']
        | _ \<Rightarrow> []),
       list_line ''Connected clients: '' (get_prop obj ''connected_clients''),
       text_line ''Auth plugin: '' (get_prop obj ''auth_plugin''),
       list_line ''Security types: '' (get_prop obj ''security_type_labels''),
       text_line ''Server: '' (get_prop obj ''server''),
       text_line ''Title: '' (get_prop obj ''title''),
       list_line ''Technologies: '' (get_prop obj ''technologies''),
       (if length fs = 0 then list_line ''Dangerous methods: '' (get_prop obj ''dangerous_methods'')
        else []),
       text_line ''X-Powered-By: '' (get_prop obj ''powered_by''),
       text_line ''Generator: '' (get_prop obj ''generator'') ]"

text \<open>The structured branch (lines 43 to 245).\<close>

definition normalize_object :: "(string \<times> jsval) list \<Rightarrow> NormalizedProbeResult" where
  "normalize_object obj =
     (let banner = (if truthy (get_prop obj ''banner'')
                    then Some (js_String (get_prop obj ''banner'')) else None)
      in if truthy (get_prop obj ''error'') then
           \<lparr> lines = [js_String (get_prop obj ''error'')],
             findings = [],
             hasVulnerability = False,
             hasError = True,
             vulnerabilities = [],
             banner = None \<rparr>
         else
           (let a0 = \<lparr> acc_lines = [], acc_findings = [], acc_vulnerabilities = [] \<rparr>;
                a1 = (case get_prop obj ''findings'' of
                        JArr fs \<Rightarrow> if length fs > 0 then fold finding_step fs a0 else a0
                      | _ \<Rightarrow> a0);
                a2 = push (case banner of
                             Some b \<Rightarrow> if b \<noteq> [] then [''Banner: '' @ b] else []
                           | None \<Rightarrow> []) a1;
                a3 = push (list_line ''Auth methods: '' (get_prop obj ''auth_methods'')) a2;
                a4 = (case get_prop obj ''vulnerabilities'' of
                        JArr vs \<Rightarrow> fold legacy_step vs a3
                      | _ \<Rightarrow> a3);
                a5 = push (field_lines obj (acc_findings a4)) a4;
                a6 = fold other_key_step obj a5
            in \<lparr> lines = acc_lines a6,
                 findings = acc_findings a6,
                 hasVulnerability = (length (acc_vulnerabilities a6) > 0),
                 hasError = False,
                 vulnerabilities = acc_vulnerabilities a6,
                 banner = banner \<rparr>))"

text \<open>The legacy branch (lines 248 to 259), on the text \<^verbatim>\<open>String(result)\<close>.\<close>

definition normalize_text :: "string \<Rightarrow> NormalizedProbeResult" where
  "normalize_text str =
     (let ls = filter (\<lambda>l. trim l \<noteq> []) (split_lines str)
      in \<lparr> lines = ls,
           findings = [],
           hasVulnerability = str_includes str ''VULNERABILITY'',
           hasError = (str_includes str ''failed'' \<or> str_includes str ''timed out''
                       \<or> startsWith str ''ERROR:''),
           vulnerabilities = filter (\<lambda>l. str_includes l ''VULNERABILITY'') ls,
           banner = None \<rparr>)"

fun normalizeProbeResult :: "jsval \<Rightarrow> NormalizedProbeResult" where
  "normalizeProbeResult JNull =
     \<lparr> lines = [], findings = [], hasVulnerability = False, hasError = False,
       vulnerabilities = [], banner = None \<rparr>"
| "normalizeProbeResult JUndefined =
     \<lparr> lines = [], findings = [], hasVulnerability = False, hasError = False,
       vulnerabilities = [], banner = None \<rparr>"
| "normalizeProbeResult (JObj obj) = normalize_object obj"
| "normalizeProbeResult v = normalize_text (js_String v)"

section \<open>Per-port aggregation\<close>

text \<open>
  Modelled from the spec: the table \<^verbatim>\<open>SEVERITY_RANK\<close>, which the port component imports
  from \<^verbatim>\<open>ProbeResultBlock\<close> but whose declaration is not among the sources. The spec
  ranks the five levels CRITICAL < HIGH < MEDIUM < LOW < INFO, a lower rank being more
  severe; the entries are listed in that order.
\<close>

definition SEVERITY_RANK :: "(string \<times> nat) list" where
  "SEVERITY_RANK =
     [(''CRITICAL'', 0), (''HIGH'', 1), (''MEDIUM'', 2), (''LOW'', 3), (''INFO'', 4)]"

definition RANK_INFO :: nat where
  "RANK_INFO = (case map_of SEVERITY_RANK ''INFO'' of Some r \<Rightarrow> r | None \<Rightarrow> 0)"

text \<open>\<^verbatim>\<open>SEVERITY_RANK[s] ?? SEVERITY_RANK.INFO\<close>.\<close>

definition rank_of :: "string \<Rightarrow> nat" where
  "rank_of s = (case map_of SEVERITY_RANK s of Some r \<Rightarrow> r | None \<Rightarrow> RANK_INFO)"

text \<open>The two lookup tables of the aggregation.\<close>

definition WELL_KNOWN_PORTS :: "(nat \<times> string) list" where
  "WELL_KNOWN_PORTS =
     [(21, ''FTP''), (22, ''SSH''), (23, ''TELNET''), (25, ''SMTP''), (42, ''WINS''),
      (53, ''DNS''), (80, ''HTTP''), (81, ''HTTP''), (110, ''POP3''), (143, ''IMAP''),
      (161, ''SNMP''), (443, ''HTTPS''), (445, ''SMB''), (465, ''SMTP''),
      (502, ''MODBUS''), (587, ''SMTP''), (993, ''IMAP''), (995, ''POP3''),
      (1433, ''MSSQL''), (3306, ''MYSQL''), (3389, ''RDP''), (5432, ''POSTGRESQL''),
      (5900, ''VNC''), (6379, ''REDIS''), (8000, ''HTTP''), (8008, ''HTTP''),
      (8080, ''HTTP''), (8081, ''HTTP''), (8443, ''HTTPS''), (8888, ''HTTP''),
      (9200, ''HTTP''), (11211, ''MEMCACHED''), (27017, ''MONGODB'')]"

definition PROBE_TO_PROTOCOL :: "(string \<times> string) list" where
  "PROBE_TO_PROTOCOL =
     [(''_service_info_ftp'', ''FTP''), (''_service_info_ssh'', ''SSH''),
      (''_service_info_telnet'', ''TELNET''), (''_service_info_smtp'', ''SMTP''),
      (''_service_info_dns'', ''DNS''), (''_service_info_http'', ''HTTP''),
      (''_service_info_https'', ''HTTPS''), (''_service_info_http_alt'', ''HTTP''),
      (''_service_info_tls'', ''TLS''), (''_service_info_mssql'', ''MSSQL''),
      (''_service_info_mysql'', ''MYSQL''), (''_service_info_rdp'', ''RDP''),
      (''_service_info_postgresql'', ''POSTGRESQL''), (''_service_info_vnc'', ''VNC''),
      (''_service_info_redis'', ''REDIS''), (''_service_info_elasticsearch'', ''ELASTICSEARCH''),
      (''_service_info_memcached'', ''MEMCACHED''), (''_service_info_mongodb'', ''MONGODB''),
      (''_service_info_snmp'', ''SNMP''), (''_service_info_smb'', ''SMB''),
      (''_service_info_modbus'', ''MODBUS''), (''_service_info_generic'', ''GENERIC''),
      (''_service_info_mysql_creds'', ''MYSQL''),
      (''_service_info_postgresql_creds'', ''POSTGRESQL'')]"

text \<open>
  \<^verbatim>\<open>topSeverityFromResult\<close>: the lowest rank among the findings of one probe result,
  \<^verbatim>\<open>INFO\<close> when it has none.
\<close>

definition topSeverityFromResult :: "jsval \<Rightarrow> nat" where
  "topSeverityFromResult result =
     (let fs = findings (normalizeProbeResult result)
      in if length fs = 0 then RANK_INFO
         else min_list (map (\<lambda>f. rank_of (severity f)) fs))"

text \<open>
  The input of the port component: the ports of the pass, and per port the probe results
  of the two categories, each a record from probe name to raw result (its entries, in
  enumeration order).
\<close>

record AggregatedPortsData =
  ports :: "nat list"
  services :: "nat \<rightharpoonup> (string \<times> jsval) list"
  webTests :: "nat \<rightharpoonup> (string \<times> jsval) list"

record PortAnalysisResult =
  severityMap :: "nat \<rightharpoonup> string"
  serviceLabel :: "nat \<rightharpoonup> string"
  detectedProtocol :: "nat \<rightharpoonup> string"
  findingCount :: "nat \<rightharpoonup> nat"
  nonStandard :: "nat set"
  owaspCounts :: "string \<rightharpoonup> nat"
  owaspIdsPerPort :: "nat \<rightharpoonup> string set"

text \<open>
  The variables of one iteration of the loop over the ports (lines 129 to 132), with the
  pass-wide tally \<^verbatim>\<open>owaspCounts\<close> that the inner loops update.
\<close>

record port_state =
  bestSev :: nat
  totalFindings :: nat
  detected :: "string option"
  portOwaspIds :: "string set"
  counts :: "string \<rightharpoonup> nat"

text \<open>Body of the loop over the findings of one result (lines 140 to 147).\<close>

definition tally_finding :: "ParsedFinding \<Rightarrow> port_state \<Rightarrow> port_state" where
  "tally_finding f s =
     (let rank = rank_of (severity f);
          s1 = (if rank < bestSev s then s\<lparr> bestSev := rank \<rparr> else s)
      in case owasp_id f of
           Some oid \<Rightarrow>
             if oid \<noteq> [] then
               s1\<lparr> portOwaspIds := insert oid (portOwaspIds s1),
                   counts := (counts s1)(oid \<mapsto>
                     (case counts s1 oid of Some c \<Rightarrow> c | None \<Rightarrow> 0) + 1) \<rparr>
             else s1
         | None \<Rightarrow> s1)"

text \<open>What both categories do with one probe result (lines 138 to 150 and 163 to 175).\<close>

definition tally_result :: "jsval \<Rightarrow> port_state \<Rightarrow> port_state" where
  "tally_result result s =
     (let fs = findings (normalizeProbeResult result);
          s1 = s\<lparr> totalFindings := totalFindings s + length fs \<rparr>;
          s2 = fold tally_finding fs s1
      in if length fs = 0
         then s2\<lparr> bestSev := min (bestSev s2) (topSeverityFromResult result) \<rparr>
         else s2)"

text \<open>A service probe also names a protocol (lines 152 to 155).\<close>

definition service_step :: "string \<times> jsval \<Rightarrow> port_state \<Rightarrow> port_state" where
  "service_step pr s =
     (let s1 = tally_result (snd pr) s
      in case map_of PROBE_TO_PROTOCOL (fst pr) of
           Some proto \<Rightarrow>
             if proto \<noteq> ''GENERIC'' \<and> proto \<noteq> ''TLS'' \<and> detected s1 = None
             then s1\<lparr> detected := Some proto \<rparr> else s1
         | None \<Rightarrow> s1)"

definition web_step :: "string \<times> jsval \<Rightarrow> port_state \<Rightarrow> port_state" where
  "web_step pr s = tally_result (snd pr) s"

text \<open>The two inner loops of one port.\<close>

definition scan_port :: "AggregatedPortsData \<Rightarrow> nat \<Rightarrow> (string \<rightharpoonup> nat) \<Rightarrow> port_state" where
  "scan_port ap port cs =
     (let s0 = \<lparr> bestSev = RANK_INFO, totalFindings = 0, detected = None,
                 portOwaspIds = {}, counts = cs \<rparr>;
          s1 = (case services ap port of Some svc \<Rightarrow> fold service_step svc s0 | None \<Rightarrow> s0)
      in case webTests ap port of Some web \<Rightarrow> fold web_step web s1 | None \<Rightarrow> s1)"

text \<open>Body of the loop over the ports (lines 128 to 211).\<close>

definition analyse_port :: "AggregatedPortsData \<Rightarrow> nat \<Rightarrow> PortAnalysisResult \<Rightarrow> PortAnalysisResult" where
  "analyse_port ap port res =
     (let s = scan_port ap port (owaspCounts res);
          sevLabel = (case find (\<lambda>kv. snd kv = bestSev s) SEVERITY_RANK of
                        Some kv \<Rightarrow> fst kv | None \<Rightarrow> ''INFO'');
          wellKnownLabel = map_of WELL_KNOWN_PORTS port
      in \<lparr> severityMap = (severityMap res)(port \<mapsto> sevLabel),
           serviceLabel =
             (case wellKnownLabel of
                Some l \<Rightarrow> (serviceLabel res)(port \<mapsto> l)
              | None \<Rightarrow>
                  (case detected s of
                     Some d \<Rightarrow> (serviceLabel res)(port \<mapsto> d)
                   | None \<Rightarrow> serviceLabel res)),
           detectedProtocol =
             (case detected s of
                Some d \<Rightarrow> (detectedProtocol res)(port \<mapsto> d)
              | None \<Rightarrow> detectedProtocol res),
           findingCount = (findingCount res)(port \<mapsto> totalFindings s),
           nonStandard =
             (case detected s of
                Some d \<Rightarrow>
                  if wellKnownLabel = None \<or> wellKnownLabel \<noteq> Some d
                  then insert port (nonStandard res) else nonStandard res
              | None \<Rightarrow> nonStandard res),
           owaspCounts = counts s,
           owaspIdsPerPort =
             (if portOwaspIds s \<noteq> {} then (owaspIdsPerPort res)(port \<mapsto> portOwaspIds s)
              else owaspIdsPerPort res) \<rparr>)"

definition portAnalysis :: "AggregatedPortsData \<Rightarrow> PortAnalysisResult" where
  "portAnalysis ap =
     fold (analyse_port ap) (ports ap)
       \<lparr> severityMap = Map.empty, serviceLabel = Map.empty, detectedProtocol = Map.empty,
         findingCount = Map.empty, nonStandard = {}, owaspCounts = Map.empty,
         owaspIdsPerPort = Map.empty \<rparr>"

section \<open>Filtering and sorting the ports\<close>

text \<open>The query state of the component (lines 110 to 114).\<close>

datatype sort_mode = Numeric | Risk

record query =
  searchQuery :: string
  severityFilter :: "string set"
  categoryFilter :: "string set"
  owaspFilter :: "string set"
  sortMode :: sort_mode

text \<open>
  The callback of \<^verbatim>\<open>filteredPorts\<close> (lines 245 to 271), with its early returns as the
  branches of a chain.
\<close>

definition keep_port :: "AggregatedPortsData \<Rightarrow> PortAnalysisResult \<Rightarrow> query \<Rightarrow> nat \<Rightarrow> bool" where
  "keep_port ap pa q port =
     (if searchQuery q \<noteq> [] \<and> \<not> str_includes (decimal port) (searchQuery q) then False
      else if severityFilter q \<noteq> {}
              \<and> (case severityMap pa port of Some sev \<Rightarrow> sev | None \<Rightarrow> ''INFO'')
                   \<notin> severityFilter q
      then False
      else if categoryFilter q \<noteq> {}
              \<and> \<not> (let hasService = (services ap port \<noteq> None);
                        hasWeb = (webTests ap port \<noteq> None);
                        hasData = (hasService \<or> hasWeb)
                    in (''services'' \<in> categoryFilter q \<and> hasService)
                       \<or> (''web'' \<in> categoryFilter q \<and> hasWeb)
                       \<or> (''nodata'' \<in> categoryFilter q \<and> \<not> hasData))
      then False
      else if owaspFilter q \<noteq> {}
              \<and> (case owaspIdsPerPort pa port of
                    None \<Rightarrow> True
                  | Some portOwasp \<Rightarrow> \<not> (\<exists>id \<in> owaspFilter q. id \<in> portOwasp))
      then False
      else True)"

definition filteredPorts :: "AggregatedPortsData \<Rightarrow> query \<Rightarrow> nat list" where
  "filteredPorts ap q = filter (keep_port ap (portAnalysis ap) q) (ports ap)"

text \<open>
  \<^verbatim>\<open>Array.prototype.sort\<close> with a comparator: a stable sort, here by insertion. An
  element goes before the first one the comparator does not put it after.
\<close>

fun insert_by :: "('a \<Rightarrow> 'a \<Rightarrow> int) \<Rightarrow> 'a \<Rightarrow> 'a list \<Rightarrow> 'a list" where
  "insert_by cmp x [] = [x]"
| "insert_by cmp x (y # ys) =
     (if cmp x y \<le> 0 then x # y # ys else y # insert_by cmp x ys)"

definition sort_by :: "('a \<Rightarrow> 'a \<Rightarrow> int) \<Rightarrow> 'a list \<Rightarrow> 'a list" where
  "sort_by cmp xs = foldr (insert_by cmp) xs []"

text \<open>
  The comparator of the risk mode (lines 277 to 282). The source reads the rank table
  without a default here; every label that the port loop stores is a key of the table
  (lemma \<open>severity_labels_known\<close> below), so \<open>rank_of\<close> reads the same rank.
\<close>

definition risk_cmp :: "PortAnalysisResult \<Rightarrow> nat \<Rightarrow> nat \<Rightarrow> int" where
  "risk_cmp pa a b =
     (let sevA = rank_of (case severityMap pa a of Some sev \<Rightarrow> sev | None \<Rightarrow> ''INFO'');
          sevB = rank_of (case severityMap pa b of Some sev \<Rightarrow> sev | None \<Rightarrow> ''INFO'')
      in if sevA \<noteq> sevB then int sevA - int sevB else int a - int b)"

text \<open>\<^verbatim>\<open>sortedPorts\<close> (lines 275 to 283): the numeric mode returns the filtered ports as they are.\<close>

definition sortedPorts :: "AggregatedPortsData \<Rightarrow> query \<Rightarrow> nat list" where
  "sortedPorts ap q =
     (case sortMode q of
        Numeric \<Rightarrow> filteredPorts ap q
      | Risk \<Rightarrow> sort_by (risk_cmp (portAnalysis ap)) (filteredPorts ap q))"

section \<open>The port summary, as the specification words it\<close>

text \<open>
  The definitions of this section follow the wording of the specification; the theorems
  below compare them with the loops of the component.
\<close>

text \<open>All probe results attached to a port: the service-detection ones, then the web tests.\<close>

definition port_results :: "AggregatedPortsData \<Rightarrow> nat \<Rightarrow> jsval list" where
  "port_results ap port =
     (case services ap port of Some svc \<Rightarrow> map snd svc | None \<Rightarrow> [])
     @ (case webTests ap port of Some web \<Rightarrow> map snd web | None \<Rightarrow> [])"

text \<open>All structured findings of those results.\<close>

definition port_findings :: "AggregatedPortsData \<Rightarrow> nat \<Rightarrow> ParsedFinding list" where
  "port_findings ap port =
     concat (map (\<lambda>r. findings (normalizeProbeResult r)) (port_results ap port))"

text \<open>The minimum rank over a list of findings, \<^verbatim>\<open>INFO\<close> when there is none.\<close>

definition min_rank :: "ParsedFinding list \<Rightarrow> nat" where
  "min_rank fs = Min (insert RANK_INFO (set (map (\<lambda>f. rank_of (severity f)) fs)))"

text \<open>The label of a rank, as the port loop finds it in the table.\<close>

definition rank_label :: "nat \<Rightarrow> string" where
  "rank_label r =
     (case find (\<lambda>kv. snd kv = r) SEVERITY_RANK of Some kv \<Rightarrow> fst kv | None \<Rightarrow> ''INFO'')"

text \<open>The dominant severity of a port summary, read as the filter and the sort read it.\<close>

definition dominantSeverity :: "AggregatedPortsData \<Rightarrow> nat \<Rightarrow> string" where
  "dominantSeverity ap port =
     (case severityMap (portAnalysis ap) port of Some sev \<Rightarrow> sev | None \<Rightarrow> ''INFO'')"

text \<open>
  The protocol inferred for a port: the first service probe, in iteration order, whose
  name maps to a protocol other than \<^verbatim>\<open>GENERIC\<close> and \<^verbatim>\<open>TLS\<close>.
\<close>

definition named_protocols :: "string list \<Rightarrow> string list" where
  "named_protocols names =
     filter (\<lambda>p. p \<noteq> ''GENERIC'' \<and> p \<noteq> ''TLS'')
       (List.map_filter (map_of PROBE_TO_PROTOCOL) names)"

definition infer_protocol :: "AggregatedPortsData \<Rightarrow> nat \<Rightarrow> string option" where
  "infer_protocol ap port =
     (case services ap port of
        None \<Rightarrow> None
      | Some svc \<Rightarrow> (case named_protocols (map fst svc) of [] \<Rightarrow> None | p # ps \<Rightarrow> Some p))"

text \<open>The compliance identifiers carried by the findings of a port.\<close>

definition complianceIds :: "AggregatedPortsData \<Rightarrow> nat \<Rightarrow> string set" where
  "complianceIds ap port =
     set (filter (\<lambda>oid. oid \<noteq> []) (List.map_filter owasp_id (port_findings ap port)))"

text \<open>The four predicates of the filter.\<close>

definition text_pred :: "query \<Rightarrow> nat \<Rightarrow> bool" where
  "text_pred q port = (searchQuery q = [] \<or> sublist (searchQuery q) (decimal port))"

definition severity_pred :: "AggregatedPortsData \<Rightarrow> query \<Rightarrow> nat \<Rightarrow> bool" where
  "severity_pred ap q port =
     (severityFilter q = {} \<or> dominantSeverity ap port \<in> severityFilter q)"

definition category_pred :: "AggregatedPortsData \<Rightarrow> query \<Rightarrow> nat \<Rightarrow> bool" where
  "category_pred ap q port =
     (categoryFilter q = {}
      \<or> (''services'' \<in> categoryFilter q \<and> services ap port \<noteq> None)
      \<or> (''web'' \<in> categoryFilter q \<and> webTests ap port \<noteq> None)
      \<or> (''nodata'' \<in> categoryFilter q \<and> services ap port = None \<and> webTests ap port = None))"

definition compliance_pred :: "AggregatedPortsData \<Rightarrow> query \<Rightarrow> nat \<Rightarrow> bool" where
  "compliance_pred ap q port =
     (owaspFilter q = {} \<or> complianceIds ap port \<inter> owaspFilter q \<noteq> {})"

text \<open>
  The order of the risk mode: a more severe port first, the lower port number first
  among ports of one severity.
\<close>

definition risk_before :: "AggregatedPortsData \<Rightarrow> nat \<Rightarrow> nat \<Rightarrow> bool" where
  "risk_before ap a b =
     (rank_of (dominantSeverity ap a) < rank_of (dominantSeverity ap b)
      \<or> (rank_of (dominantSeverity ap a) = rank_of (dominantSeverity ap b) \<and> a \<le> b))"

section \<open>An example pass\<close>

text \<open>
  Five ports, listed out of numeric order. Port 8080 has a MEDIUM service finding and a
  CRITICAL web finding; port 22 has a generic banner and an SSH result with a HIGH
  finding; port 2222 answers the TLS and the SSH probe, with a LOW finding; port 25 has
  a legacy text result that carries the vulnerability marker; port 9 has no result.
\<close>

definition example_pass :: AggregatedPortsData where
  "example_pass =
     \<lparr> ports = [8080, 22, 2222, 25, 9],
       services =
         [8080 \<mapsto> [(''_service_info_http'',
                      JObj [(''findings'',
                             JArr [JObj [(''severity'', JStr ''MEDIUM''),
                                         (''title'', JStr ''Server header''),
                                         (''owasp_id'', JStr ''A05'')]])])],
          22 \<mapsto> [(''_service_info_generic'', JStr ''SSH-2.0-OpenSSH_9.0''),
                    (''_service_info_ssh'',
                      JObj [(''banner'', JStr ''OpenSSH 9.0p1''),
                            (''findings'',
                             JArr [JObj [(''severity'', JStr ''high''),
                                         (''title'', JStr ''Weak MAC algorithm'')]])])],
          2222 \<mapsto> [(''_service_info_tls'', JStr ''no handshake''),
                      (''_service_info_ssh'',
                        JObj [(''findings'',
                               JArr [JObj [(''severity'', JStr ''low''),
                                           (''title'', JStr ''Banner disclosure'')]])])],
          25 \<mapsto> [(''_service_info_smtp'', JStr ''VULNERABILITY: open relay'')]],
       webTests =
         [8080 \<mapsto> [(''_web_test_xss'',
                      JObj [(''findings'',
                             JArr [JObj [(''severity'', JStr ''CRITICAL''),
                                         (''title'', JStr ''Reflected XSS''),
                                         (''owasp_id'', JStr ''A03'')]])])]] \<rparr>"

definition no_filter :: "sort_mode \<Rightarrow> query" where
  "no_filter mode =
     \<lparr> searchQuery = [], severityFilter = {}, categoryFilter = {}, owaspFilter = {},
       sortMode = mode \<rparr>"

definition critical_query :: query where
  "critical_query =
     \<lparr> searchQuery = ''80'', severityFilter = {''CRITICAL''}, categoryFilter = {''web''},
       owaspFilter = {''A03''}, sortMode = Numeric \<rparr>"

section \<open>Properties of the normaliser\<close>

text \<open>
  C1. A structured result whose \<^verbatim>\<open>error\<close> field is set (truthy, as the source tests
  it) is normalised to exactly the error shape: the error text as the only line, no
  finding, no vulnerability, no banner, \<^verbatim>\<open>hasError\<close> true. The object is arbitrary, so
  no other field has any influence.
\<close>

theorem error_short_circuit:
  assumes "truthy (get_prop obj ''error'')"
  shows "normalizeProbeResult (JObj obj) =
           \<lparr> lines = [js_String (get_prop obj ''error'')], findings = [],
             hasVulnerability = False, hasError = True, vulnerabilities = [],
             banner = None \<rparr>"
  using assms by (simp add: normalize_object_def)

theorem error_short_circuit_witness:
  "truthy (get_prop [(''banner'', JStr ''OpenSSH''), (''error'', JStr ''connection refused''),
                     (''vulnerabilities'', JArr [JStr ''VULNERABILITY: x''])] ''error'')
   \<and> normalizeProbeResult
        (JObj [(''banner'', JStr ''OpenSSH''), (''error'', JStr ''connection refused''),
               (''vulnerabilities'', JArr [JStr ''VULNERABILITY: x''])]) =
       \<lparr> lines = [''connection refused''], findings = [],
         hasVulnerability = False, hasError = True, vulnerabilities = [],
         banner = None \<rparr>"
proof -
  have h: "truthy (get_prop [(''banner'', JStr ''OpenSSH''), (''error'', JStr ''connection refused''),
                     (''vulnerabilities'', JArr [JStr ''VULNERABILITY: x''])] ''error'')"
    by (simp add: get_prop_def)
  show ?thesis using h error_short_circuit [OF h] by (simp add: get_prop_def)
qed

text \<open>
  C9. \<^verbatim>\<open>hasError\<close> is true exactly for a structured result with its \<^verbatim>\<open>error\<close> field set,
  and for a text that contains \<^verbatim>\<open>failed\<close> or \<^verbatim>\<open>timed out\<close> or starts with \<^verbatim>\<open>ERROR:\<close>. It
  is false for \<^verbatim>\<open>null\<close> and \<^verbatim>\<open>undefined\<close>, and for every structured result without a set
  error field, whatever its other fields hold. A value that is neither (a number, a
  boolean, an array) is read as the text \<^verbatim>\<open>String(result)\<close>.
\<close>

theorem hasError_cases:
  "hasError (normalizeProbeResult r) =
     (case r of
        JUndefined \<Rightarrow> False
      | JNull \<Rightarrow> False
      | JObj obj \<Rightarrow> truthy (get_prop obj ''error'')
      | _ \<Rightarrow> sublist ''failed'' (js_String r) \<or> sublist ''timed out'' (js_String r)
              \<or> prefix ''ERROR:'' (js_String r))"
  by (cases r)
    (simp_all add: normalize_object_def normalize_text_def str_includes_def startsWith_def Let_def)

theorem hasError_cases_witness:
  "hasError (normalizeProbeResult (JStr ''connection timed out''))
   \<and> \<not> hasError (normalizeProbeResult (JObj [(''note'', JStr ''login failed'')]))"
  using hasError_cases [of "JStr ''connection timed out''"]
    hasError_cases [of "JObj [(''note'', JStr ''login failed'')]"]
  by (simp add: get_prop_def sublist_code)

subsection \<open>Severity of a parsed finding\<close>

lemma severity_missing:
  "nullish (get_prop finding ''severity'') \<Longrightarrow> severity (parse_finding finding) = ''INFO''"
proof -
  have "toUpperCase ''INFO'' = ''INFO''" by code_simp
  then show "nullish (get_prop finding ''severity'') \<Longrightarrow> severity (parse_finding finding) = ''INFO''"
    by (simp add: parse_finding_def)
qed

lemma severity_present:
  "\<not> nullish (get_prop finding ''severity'') \<Longrightarrow>
   severity (parse_finding finding) = toUpperCase (js_String (get_prop finding ''severity''))"
  by (simp add: parse_finding_def)

lemma rank_of_unrecognized: "map_of SEVERITY_RANK sev = None \<Longrightarrow> rank_of sev = RANK_INFO"
  by (simp add: rank_of_def)

text \<open>
  C3. The severity of a parsed finding is the upper-cased text of the input severity, and
  \<^verbatim>\<open>INFO\<close> when the input has none (the two lemmas above). A severity outside the five
  levels is not replaced: the finding below keeps \<^verbatim>\<open>BANANA\<close>, which is none of
  CRITICAL, HIGH, MEDIUM, LOW and INFO, although the type of the field lists only these
  five. The aggregation ranks such a severity as \<^verbatim>\<open>INFO\<close>.
\<close>

theorem unrecognized_severity_kept:
  "map severity (findings (normalizeProbeResult
      (JObj [(''findings'',
              JArr [JObj [(''severity'', JStr ''banana''), (''title'', JStr ''x'')]])])))
   = [''BANANA'']"
  by code_simp

subsection \<open>Lines of a text and the vulnerability marker\<close>

lemma split_lines_nonempty: "split_lines s \<noteq> []"
  by (induction s) (auto split: list.splits)

lemma hd_split_lines_in: "hd (split_lines s) \<in> set (split_lines s)"
  using split_lines_nonempty by simp

lemma prefix_hd_split_lines:
  "prefix t s \<Longrightarrow> CHR 0x0A \<notin> set t \<Longrightarrow> prefix t (hd (split_lines s))"
proof (induction s arbitrary: t)
  case Nil
  then show ?case by simp
next
  case (Cons c cs)
  show ?case
  proof (cases t)
    case Nil
    then show ?thesis by simp
  next
    case (Cons d ds)
    with Cons.prems have "d = c" "prefix ds cs" "c \<noteq> CHR 0x0A" "CHR 0x0A \<notin> set ds"
      by auto
    with Cons.IH [of ds] Cons split_lines_nonempty [of cs] show ?thesis
      by (auto split: list.splits)
  qed
qed

lemma in_split_lines_Cons:
  "l \<in> set (split_lines cs) \<Longrightarrow> sublist t l \<Longrightarrow> \<exists>l' \<in> set (split_lines (c # cs)). sublist t l'"
proof (cases "c = CHR 0x0A")
  case True
  assume "l \<in> set (split_lines cs)" "sublist t l"
  with True show ?thesis by auto
next
  case False
  assume l: "l \<in> set (split_lines cs)" and t: "sublist t l"
  obtain r rs where r: "split_lines cs = r # rs"
    using split_lines_nonempty [of cs] by (cases "split_lines cs") auto
  show ?thesis
  proof (cases "l = r")
    case True
    with t have "sublist t (c # r)" by (simp add: sublist_Cons_right)
    with False r show ?thesis by simp
  next
    case False
    with l r have "l \<in> set rs" by simp
    with \<open>c \<noteq> CHR 0x0A\<close> r t show ?thesis by auto
  qed
qed

lemma sublist_some_line:
  "sublist t s \<Longrightarrow> CHR 0x0A \<notin> set t \<Longrightarrow> \<exists>l \<in> set (split_lines s). sublist t l"
proof (induction s)
  case Nil
  then show ?case by simp
next
  case (Cons c cs)
  from Cons.prems(1) consider "prefix t (c # cs)" | "sublist t cs"
    by (auto simp: sublist_Cons_right)
  then show ?case
  proof cases
    case 1
    from 1 Cons.prems(2) have "prefix t (hd (split_lines (c # cs)))"
      by (rule prefix_hd_split_lines)
    then have "sublist t (hd (split_lines (c # cs)))" by (rule prefix_imp_sublist)
    with hd_split_lines_in [of "c # cs"] show ?thesis by blast
  next
    case 2
    with Cons obtain l where "l \<in> set (split_lines cs)" "sublist t l" by blast
    then show ?thesis by (rule in_split_lines_Cons)
  qed
qed

lemma hd_split_lines_prefix: "prefix (hd (split_lines s)) s"
  by (induction s) (auto split: list.splits)

lemma line_sublist: "l \<in> set (split_lines s) \<Longrightarrow> sublist l s"
proof (induction s arbitrary: l)
  case Nil
  then show ?case by simp
next
  case (Cons c cs)
  obtain r rs where r: "split_lines cs = r # rs"
    using split_lines_nonempty [of cs] by (cases "split_lines cs") auto
  show ?case
  proof (cases "c = CHR 0x0A")
    case True
    with Cons.prems have "l = [] \<or> l \<in> set (split_lines cs)" by simp
    then show ?thesis
    proof
      assume "l = []" then show ?thesis by simp
    next
      assume "l \<in> set (split_lines cs)"
      then have "sublist l cs" by (rule Cons.IH)
      then show ?thesis by (simp add: sublist_Cons_right)
    qed
  next
    case False
    with Cons.prems r have "l = c # r \<or> l \<in> set rs" by simp
    then show ?thesis
    proof
      assume "l = c # r"
      moreover have "prefix r cs" using hd_split_lines_prefix [of cs] r by simp
      ultimately have "prefix l (c # cs)" by simp
      then show ?thesis by (rule prefix_imp_sublist)
    next
      assume "l \<in> set rs"
      with r have "l \<in> set (split_lines cs)" by simp
      then have "sublist l cs" by (rule Cons.IH)
      then show ?thesis by (simp add: sublist_Cons_right)
    qed
  qed
qed

lemma trim_nonempty:
  assumes "c \<in> set l" and "\<not> is_space c"
  shows "trim l \<noteq> []"
proof -
  from assms have "dropWhile is_space l \<noteq> []"
    by (auto simp: dropWhile_eq_Nil_conv)
  moreover have "\<not> is_space (hd (dropWhile is_space l))"
    using calculation by (rule hd_dropWhile)
  ultimately have "\<exists>d \<in> set (rev (dropWhile is_space l)). \<not> is_space d"
    by (metis hd_in_set set_rev)
  then have "dropWhile is_space (rev (dropWhile is_space l)) \<noteq> []"
    by (auto simp: dropWhile_eq_Nil_conv)
  then show ?thesis by (simp add: trim_def)
qed

lemma marker_line_kept:
  assumes "sublist ''VULNERABILITY'' l"
  shows "trim l \<noteq> []"
proof -
  have "CHR ''V'' \<in> set l"
    using set_mono_sublist [OF assms] by auto
  moreover have "\<not> is_space (CHR ''V'')" by (simp add: is_space_def)
  ultimately show ?thesis by (rule trim_nonempty)
qed

lemma text_marker_iff:
  "sublist ''VULNERABILITY'' s \<longleftrightarrow>
     filter (\<lambda>l. sublist ''VULNERABILITY'' l) (filter (\<lambda>l. trim l \<noteq> []) (split_lines s)) \<noteq> []"
proof
  assume "sublist ''VULNERABILITY'' s"
  moreover have "CHR 0x0A \<notin> set ''VULNERABILITY''" by simp
  ultimately obtain l where l: "l \<in> set (split_lines s)" "sublist ''VULNERABILITY'' l"
    using sublist_some_line by blast
  from l(2) have "trim l \<noteq> []" by (rule marker_line_kept)
  with l show "filter (\<lambda>l. sublist ''VULNERABILITY'' l) (filter (\<lambda>l. trim l \<noteq> []) (split_lines s)) \<noteq> []"
    by (auto simp: filter_empty_conv)
next
  assume "filter (\<lambda>l. sublist ''VULNERABILITY'' l) (filter (\<lambda>l. trim l \<noteq> []) (split_lines s)) \<noteq> []"
  then obtain l where "l \<in> set (split_lines s)" "sublist ''VULNERABILITY'' l"
    by (auto simp: filter_empty_conv)
  then show "sublist ''VULNERABILITY'' s"
    using line_sublist sublist_order.order_trans by blast
qed

lemma normalize_text_marker:
  "hasVulnerability (normalize_text s) = (vulnerabilities (normalize_text s) \<noteq> [])"
  using text_marker_iff [of s] by (simp add: normalize_text_def Let_def str_includes_def)

lemma normalize_object_marker:
  "hasVulnerability (normalize_object obj) = (vulnerabilities (normalize_object obj) \<noteq> [])"
  by (simp add: normalize_object_def Let_def)

text \<open>
  C2. For every input, \<^verbatim>\<open>hasVulnerability\<close> is true exactly when \<^verbatim>\<open>vulnerabilities\<close> is
  not empty. In the structured branch the flag is computed from the list; in the text
  branch the marker has no line feed and no white space only, so a text contains it
  exactly when one of its kept lines does.
\<close>

theorem hasVulnerability_iff_vulnerabilities:
  "hasVulnerability (normalizeProbeResult r) = (vulnerabilities (normalizeProbeResult r) \<noteq> [])"
  by (cases r) (simp_all add: normalize_text_marker normalize_object_marker)

theorem hasVulnerability_iff_vulnerabilities_witness:
  "hasVulnerability (normalizeProbeResult (JStr ''VULNERABILITY: open relay''))
   \<and> vulnerabilities (normalizeProbeResult (JStr ''VULNERABILITY: open relay'')) \<noteq> []
   \<and> \<not> hasVulnerability (normalizeProbeResult (JObj [(''banner'', JStr ''OpenSSH 9.0p1'')]))
   \<and> vulnerabilities (normalizeProbeResult (JObj [(''banner'', JStr ''OpenSSH 9.0p1'')])) = []"
proof -
  have "hasVulnerability (normalizeProbeResult (JStr ''VULNERABILITY: open relay''))"
    by code_simp
  moreover have "vulnerabilities (normalizeProbeResult (JObj [(''banner'', JStr ''OpenSSH 9.0p1'')])) = []"
    by code_simp
  ultimately show ?thesis
    using hasVulnerability_iff_vulnerabilities [of "JStr ''VULNERABILITY: open relay''"]
      hasVulnerability_iff_vulnerabilities [of "JObj [(''banner'', JStr ''OpenSSH 9.0p1'')]"]
    by simp
qed

subsection \<open>The legacy vulnerability list\<close>

lemma push_vulnerabilities: "acc_vulnerabilities (push ls a) = acc_vulnerabilities a"
  by (simp add: push_def)

lemma other_key_step_handled: "k \<in> set handled \<Longrightarrow> other_key_step (k, v) a = a"
  by (simp add: other_key_step_def)

lemma legacy_step_skip:
  assumes "list_ex (\<lambda>existing. sublist (js_String v) existing) (acc_vulnerabilities a)"
  shows "legacy_step v a = a"
  using assms by (simp add: legacy_step_def str_includes_def Let_def)

lemma vuln_grade_object:
  assumes "isVuln (toUpperCase sev)"
  shows "vulnerabilities (normalizeProbeResult
           (JObj [(''findings'', JArr [JObj [(''severity'', JStr sev), (''title'', JStr t)]]),
                  (''vulnerabilities'', JArr [v])])) =
         acc_vulnerabilities
           (legacy_step v
              \<lparr> acc_lines = [''VULNERABILITY: ['' @ toUpperCase sev @ ''] '' @ t],
                acc_findings = [parse_finding [(''severity'', JStr sev), (''title'', JStr t)]],
                acc_vulnerabilities = [''VULNERABILITY: ['' @ toUpperCase sev @ ''] '' @ t] \<rparr>)"
proof -
  have sev: "severity (parse_finding [(''severity'', JStr sev), (''title'', JStr t)]) = toUpperCase sev"
    and ttl: "title (parse_finding [(''severity'', JStr sev), (''title'', JStr t)]) = t"
    by (simp_all add: parse_finding_def get_prop_def)
  have h: "''findings'' \<in> set handled" "''vulnerabilities'' \<in> set handled"
    by (simp_all add: handled_def)
  show ?thesis
    using assms
    by (simp add: normalize_object_def get_prop_def Let_def record_finding_def sev ttl
        push_vulnerabilities other_key_step_handled [OF h(1)] other_key_step_handled [OF h(2)]
        push_def list_line_def)
qed

text \<open>
  C4, as amended. A legacy entry is added neither to the vulnerabilities nor to the
  lines when a vulnerability recorded before it equals its text or contains it. The
  label of a vulnerability-grade finding (CRITICAL, HIGH or MEDIUM) ends with the title,
  so a legacy entry whose text the title of such a finding contains is not added: a
  result with such a finding and such a legacy entry has exactly one vulnerability, the
  label of the finding.
\<close>

theorem legacy_dedup:
  "(list_ex (\<lambda>existing. sublist (js_String v) existing) (acc_vulnerabilities a) \<longrightarrow>
      legacy_step v a = a)
   \<and> (isVuln (toUpperCase sev) \<and> sublist (js_String v) t \<longrightarrow>
      vulnerabilities (normalizeProbeResult
        (JObj [(''findings'', JArr [JObj [(''severity'', JStr sev), (''title'', JStr t)]]),
               (''vulnerabilities'', JArr [v])])) =
      [''VULNERABILITY: ['' @ toUpperCase sev @ ''] '' @ t])"
proof (intro conjI impI)
  assume "list_ex (\<lambda>existing. sublist (js_String v) existing) (acc_vulnerabilities a)"
  then show "legacy_step v a = a" by (rule legacy_step_skip)
next
  let ?label = "''VULNERABILITY: ['' @ toUpperCase sev @ ''] '' @ t"
  let ?a = "\<lparr> acc_lines = [?label],
              acc_findings = [parse_finding [(''severity'', JStr sev), (''title'', JStr t)]],
              acc_vulnerabilities = [?label] \<rparr>"
  assume h: "isVuln (toUpperCase sev) \<and> sublist (js_String v) t"
  have "sublist t ?label"
    by (rule suffix_imp_sublist) (simp add: suffix_def)
  with h have "sublist (js_String v) ?label"
    using sublist_order.order_trans by blast
  then have "legacy_step v ?a = ?a"
    by (intro legacy_step_skip) simp
  with vuln_grade_object [of sev t v] h
  show "vulnerabilities (normalizeProbeResult
        (JObj [(''findings'', JArr [JObj [(''severity'', JStr sev), (''title'', JStr t)]]),
               (''vulnerabilities'', JArr [v])])) = [?label]"
    by simp
qed

theorem legacy_dedup_witness:
  "list_ex (\<lambda>existing. sublist (js_String (JStr ''cipher'')) existing)
     (acc_vulnerabilities \<lparr> acc_lines = [''VULNERABILITY: weak cipher RC4''], acc_findings = [],
                            acc_vulnerabilities = [''weak cipher RC4''] \<rparr>)
   \<and> legacy_step (JStr ''cipher'')
         \<lparr> acc_lines = [''VULNERABILITY: weak cipher RC4''], acc_findings = [],
           acc_vulnerabilities = [''weak cipher RC4''] \<rparr> =
       \<lparr> acc_lines = [''VULNERABILITY: weak cipher RC4''], acc_findings = [],
         acc_vulnerabilities = [''weak cipher RC4''] \<rparr>
   \<and> isVuln (toUpperCase ''HIGH'')
   \<and> sublist (js_String (JStr ''Open Relay Detected'')) ''Open Relay Detected''
   \<and> vulnerabilities (normalizeProbeResult
        (JObj [(''findings'', JArr [JObj [(''severity'', JStr ''HIGH''),
                                          (''title'', JStr ''Open Relay Detected'')]]),
               (''vulnerabilities'', JArr [JStr ''Open Relay Detected''])])) =
      [''VULNERABILITY: [HIGH] Open Relay Detected'']"
proof -
  have u: "toUpperCase ''HIGH'' = ''HIGH''" by code_simp
  have h: "isVuln (toUpperCase ''HIGH'')" by (simp add: u isVuln_def)
  have s: "sublist (js_String (JStr ''Open Relay Detected'')) ''Open Relay Detected''" by simp
  have c: "list_ex (\<lambda>existing. sublist (js_String (JStr ''cipher'')) existing)
     (acc_vulnerabilities \<lparr> acc_lines = [''VULNERABILITY: weak cipher RC4''], acc_findings = [],
                            acc_vulnerabilities = [''weak cipher RC4''] \<rparr>)"
    by (simp add: sublist_code)
  show ?thesis
    using legacy_dedup [of "JStr ''Open Relay Detected''" "\<lparr> acc_lines = [], acc_findings = [],
                            acc_vulnerabilities = [] \<rparr>" "''HIGH''" "''Open Relay Detected''"]
      legacy_dedup [of "JStr ''cipher''" "\<lparr> acc_lines = [''VULNERABILITY: weak cipher RC4''],
          acc_findings = [], acc_vulnerabilities = [''weak cipher RC4''] \<rparr>" "''HIGH''" "[]"]
      h s u c
    by simp
qed

text \<open>
  C4, as stated, fails in two ways. A finding below vulnerability grade is not among the
  recorded vulnerabilities, so a legacy entry equal to its title is added. A legacy
  entry that contains the title with more text around it is not contained in the label,
  so it is added next to the label.
\<close>

theorem legacy_dedup_counterexample:
  "vulnerabilities (normalizeProbeResult
      (JObj [(''findings'', JArr [JObj [(''severity'', JStr ''LOW''),
                                        (''title'', JStr ''Open Relay Detected'')]]),
             (''vulnerabilities'', JArr [JStr ''Open Relay Detected''])])) =
     [''Open Relay Detected'']
   \<and> vulnerabilities (normalizeProbeResult
      (JObj [(''findings'', JArr [JObj [(''severity'', JStr ''HIGH''),
                                        (''title'', JStr ''Open Relay Detected'')]]),
             (''vulnerabilities'', JArr [JStr ''SMTP Open Relay Detected''])])) =
     [''VULNERABILITY: [HIGH] Open Relay Detected'', ''SMTP Open Relay Detected'']"
  by code_simp

section \<open>Properties of the port aggregation\<close>

subsection \<open>Ranks\<close>

lemma RANK_INFO_eq: "RANK_INFO = 4"
  by (simp add: RANK_INFO_def SEVERITY_RANK_def)

lemma rank_of_le: "rank_of s \<le> RANK_INFO"
  by (simp add: rank_of_def RANK_INFO_def SEVERITY_RANK_def)

lemma rank_label_rank: "r \<le> RANK_INFO \<Longrightarrow> map_of SEVERITY_RANK (rank_label r) = Some r"
proof -
  assume "r \<le> RANK_INFO"
  then have "r = 0 \<or> r = 1 \<or> r = 2 \<or> r = 3 \<or> r = 4"
    by (auto simp: RANK_INFO_eq)
  then show ?thesis
    by (auto simp: rank_label_def SEVERITY_RANK_def)
qed

lemma fold_min_Min: "fold min xs (b::nat) = Min (insert b (set xs))"
  using Min.set_eq_fold [of b xs] by simp

lemma fold_min_le: "fold min xs (b::nat) \<le> b"
  by (simp add: fold_min_Min)

subsection \<open>The loop over the findings of one result\<close>

lemma tally_finding_bestSev:
  "bestSev (tally_finding f s) = min (rank_of (severity f)) (bestSev s)"
  by (simp add: tally_finding_def Let_def min_def split: option.splits)

lemma tally_finding_detected: "detected (tally_finding f s) = detected s"
  by (simp add: tally_finding_def Let_def split: option.splits)

lemma tally_finding_ids:
  "portOwaspIds (tally_finding f s) =
     portOwaspIds s \<union> set (filter (\<lambda>oid. oid \<noteq> []) (List.map_filter owasp_id [f]))"
  by (auto simp: tally_finding_def Let_def map_filter_simps split: option.splits)

lemma fold_tally_bestSev:
  "bestSev (fold tally_finding fs s) =
     fold min (map (\<lambda>f. rank_of (severity f)) fs) (bestSev s)"
  by (induction fs arbitrary: s) (simp_all add: tally_finding_bestSev)

lemma fold_tally_detected: "detected (fold tally_finding fs s) = detected s"
  by (induction fs arbitrary: s) (simp_all add: tally_finding_detected)

lemma map_filter_append: "List.map_filter f (xs @ ys) = List.map_filter f xs @ List.map_filter f ys"
  by (simp add: List.map_filter_def)

lemma fold_tally_ids:
  "portOwaspIds (fold tally_finding fs s) =
     portOwaspIds s \<union> set (filter (\<lambda>oid. oid \<noteq> []) (List.map_filter owasp_id fs))"
proof (induction fs arbitrary: s)
  case Nil
  then show ?case by (simp add: map_filter_simps)
next
  case (Cons f fs)
  have "List.map_filter owasp_id (f # fs) = List.map_filter owasp_id [f] @ List.map_filter owasp_id fs"
    using map_filter_append [of owasp_id "[f]" fs] by simp
  then show ?case
    by (simp add: Cons.IH tally_finding_ids Un_assoc)
qed

subsection \<open>One probe result\<close>

lemma topSeverity_no_findings:
  "findings (normalizeProbeResult r) = [] \<Longrightarrow> topSeverityFromResult r = RANK_INFO"
  by (simp add: topSeverityFromResult_def)

lemma tally_result_bestSev:
  assumes "bestSev s \<le> RANK_INFO"
  shows "bestSev (tally_result r s) =
           fold min (map (\<lambda>f. rank_of (severity f)) (findings (normalizeProbeResult r))) (bestSev s)"
proof (cases "findings (normalizeProbeResult r) = []")
  case True
  with assms show ?thesis
    by (simp add: tally_result_def topSeverity_no_findings)
next
  case False
  then show ?thesis
    by (simp add: tally_result_def Let_def fold_tally_bestSev)
qed

lemma tally_result_detected: "detected (tally_result r s) = detected s"
  by (simp add: tally_result_def Let_def fold_tally_detected)

lemma tally_result_ids:
  "portOwaspIds (tally_result r s) =
     portOwaspIds s
     \<union> set (filter (\<lambda>oid. oid \<noteq> []) (List.map_filter owasp_id (findings (normalizeProbeResult r))))"
  by (simp add: tally_result_def Let_def fold_tally_ids)

lemma tally_result_bound:
  "bestSev s \<le> RANK_INFO \<Longrightarrow> bestSev (tally_result r s) \<le> RANK_INFO"
  using fold_min_le [of "map (\<lambda>f. rank_of (severity f)) (findings (normalizeProbeResult r))" "bestSev s"]
  by (simp add: tally_result_bestSev)

subsection \<open>The two loops over the probes of a port\<close>

lemma service_step_bestSev: "bestSev (service_step pr s) = bestSev (tally_result (snd pr) s)"
  by (simp add: service_step_def Let_def split: option.splits)

lemma service_step_ids: "portOwaspIds (service_step pr s) = portOwaspIds (tally_result (snd pr) s)"
  by (simp add: service_step_def Let_def split: option.splits)

lemma service_step_detected:
  "detected (service_step pr s) =
     (case detected s of
        Some d \<Rightarrow> Some d
      | None \<Rightarrow> (case named_protocols [fst pr] of [] \<Rightarrow> None | p # ps \<Rightarrow> Some p))"
  by (simp add: service_step_def Let_def tally_result_detected named_protocols_def
      map_filter_simps split: option.splits)

lemma fold_service_bestSev:
  "bestSev s \<le> RANK_INFO \<Longrightarrow>
   bestSev (fold service_step svc s) =
     fold min (map (\<lambda>f. rank_of (severity f))
                (concat (map (\<lambda>r. findings (normalizeProbeResult r)) (map snd svc))))
       (bestSev s)
   \<and> bestSev (fold service_step svc s) \<le> RANK_INFO"
proof (induction svc arbitrary: s)
  case Nil
  then show ?case by simp
next
  case (Cons pr svc)
  have "bestSev (service_step pr s) \<le> RANK_INFO"
    using Cons.prems by (simp add: service_step_bestSev tally_result_bound)
  from Cons.IH [OF this] Cons.prems show ?case
    by (simp add: service_step_bestSev tally_result_bestSev)
qed

lemma fold_web_bestSev:
  "bestSev s \<le> RANK_INFO \<Longrightarrow>
   bestSev (fold web_step web s) =
     fold min (map (\<lambda>f. rank_of (severity f))
                (concat (map (\<lambda>r. findings (normalizeProbeResult r)) (map snd web))))
       (bestSev s)"
proof (induction web arbitrary: s)
  case Nil
  then show ?case by simp
next
  case (Cons pr web)
  have "bestSev (web_step pr s) \<le> RANK_INFO"
    using Cons.prems by (simp add: web_step_def tally_result_bound)
  from Cons.IH [OF this] Cons.prems show ?case
    by (simp add: web_step_def tally_result_bestSev)
qed

lemma named_protocols_Cons:
  "named_protocols (n # ns) = named_protocols [n] @ named_protocols ns"
  using map_filter_append [of "map_of PROBE_TO_PROTOCOL" "[n]" ns]
  by (simp add: named_protocols_def)

lemma fold_service_detected:
  "detected (fold service_step svc s) =
     (case detected s of
        Some d \<Rightarrow> Some d
      | None \<Rightarrow> (case named_protocols (map fst svc) of [] \<Rightarrow> None | p # ps \<Rightarrow> Some p))"
proof (induction svc arbitrary: s)
  case Nil
  then show ?case by (simp add: named_protocols_def map_filter_simps split: option.splits)
next
  case (Cons pr svc)
  show ?case
    by (simp add: Cons.IH service_step_detected named_protocols_Cons [of "fst pr" "map fst svc"]
        split: option.splits list.splits)
qed

lemma fold_web_detected: "detected (fold web_step web s) = detected s"
  by (induction web arbitrary: s) (simp_all add: web_step_def tally_result_detected)

lemma fold_service_ids:
  "portOwaspIds (fold service_step svc s) =
     portOwaspIds s
     \<union> set (filter (\<lambda>oid. oid \<noteq> [])
         (List.map_filter owasp_id
            (concat (map (\<lambda>r. findings (normalizeProbeResult r)) (map snd svc)))))"
  by (induction svc arbitrary: s)
    (auto simp: service_step_ids tally_result_ids map_filter_append map_filter_simps)

lemma fold_web_ids:
  "portOwaspIds (fold web_step web s) =
     portOwaspIds s
     \<union> set (filter (\<lambda>oid. oid \<noteq> [])
         (List.map_filter owasp_id
            (concat (map (\<lambda>r. findings (normalizeProbeResult r)) (map snd web)))))"
  by (induction web arbitrary: s)
    (auto simp: web_step_def tally_result_ids map_filter_append map_filter_simps)

subsection \<open>One port\<close>

lemma scan_port_bestSev: "bestSev (scan_port ap port cs) = min_rank (port_findings ap port)"
proof -
  let ?s0 = "\<lparr> bestSev = RANK_INFO, totalFindings = 0, detected = None,
               portOwaspIds = {}, counts = cs \<rparr>"
  let ?svc = "case services ap port of Some svc \<Rightarrow> svc | None \<Rightarrow> []"
  let ?web = "case webTests ap port of Some web \<Rightarrow> web | None \<Rightarrow> []"
  have eq: "scan_port ap port cs = fold web_step ?web (fold service_step ?svc ?s0)"
    by (simp add: scan_port_def Let_def split: option.splits)
  have res: "port_results ap port = map snd ?svc @ map snd ?web"
    by (simp add: port_results_def split: option.splits)
  have s1: "bestSev (fold service_step ?svc ?s0) =
              fold min (map (\<lambda>f. rank_of (severity f))
                (concat (map (\<lambda>r. findings (normalizeProbeResult r)) (map snd ?svc)))) RANK_INFO"
    and b1: "bestSev (fold service_step ?svc ?s0) \<le> RANK_INFO"
    using fold_service_bestSev [of ?s0 ?svc] by simp_all
  have "bestSev (scan_port ap port cs) =
          fold min (map (\<lambda>f. rank_of (severity f)) (port_findings ap port)) RANK_INFO"
    unfolding eq port_findings_def res
    using fold_web_bestSev [OF b1, of ?web] s1 by simp
  then show ?thesis by (simp add: min_rank_def fold_min_Min)
qed

lemma scan_port_detected: "detected (scan_port ap port cs) = infer_protocol ap port"
  by (simp add: scan_port_def Let_def infer_protocol_def fold_web_detected fold_service_detected
      split: option.splits)

lemma scan_port_ids: "portOwaspIds (scan_port ap port cs) = complianceIds ap port"
  by (simp add: scan_port_def Let_def complianceIds_def port_findings_def port_results_def
      fold_web_ids fold_service_ids map_filter_append map_filter_simps split: option.splits)

lemma min_rank_le: "min_rank fs \<le> RANK_INFO"
  by (simp add: min_rank_def)

subsection \<open>The loop over the ports\<close>

lemma analyse_port_severityMap:
  "severityMap (analyse_port ap p res) =
     (severityMap res)(p \<mapsto> rank_label (min_rank (port_findings ap p)))"
  by (simp add: analyse_port_def Let_def scan_port_bestSev rank_label_def)

lemma analyse_port_nonStandard:
  "nonStandard (analyse_port ap p res) =
     (if \<exists>proto. infer_protocol ap p = Some proto
                  \<and> (map_of WELL_KNOWN_PORTS p = None \<or> map_of WELL_KNOWN_PORTS p \<noteq> Some proto)
      then insert p (nonStandard res) else nonStandard res)"
  by (auto simp: analyse_port_def Let_def scan_port_detected split: option.splits)

lemma analyse_port_owaspIds:
  "owaspIdsPerPort (analyse_port ap p res) =
     (if complianceIds ap p \<noteq> {} then (owaspIdsPerPort res)(p \<mapsto> complianceIds ap p)
      else owaspIdsPerPort res)"
  by (simp add: analyse_port_def Let_def scan_port_ids)

lemma fold_analyse_severityMap:
  "severityMap (fold (analyse_port ap) ps res) port =
     (if port \<in> set ps then Some (rank_label (min_rank (port_findings ap port)))
      else severityMap res port)"
  by (induction ps arbitrary: res) (simp_all add: analyse_port_severityMap)

lemma fold_analyse_nonStandard:
  "port \<in> nonStandard (fold (analyse_port ap) ps res) \<longleftrightarrow>
     port \<in> nonStandard res
     \<or> (port \<in> set ps
         \<and> (\<exists>proto. infer_protocol ap port = Some proto
               \<and> (map_of WELL_KNOWN_PORTS port = None
                   \<or> map_of WELL_KNOWN_PORTS port \<noteq> Some proto)))"
proof (induction ps arbitrary: res)
  case Nil
  then show ?case by simp
next
  case (Cons p ps)
  show ?case
    unfolding fold_Cons comp_apply Cons.IH analyse_port_nonStandard
    by auto
qed

lemma fold_analyse_owaspIds:
  "owaspIdsPerPort (fold (analyse_port ap) ps res) port =
     (if port \<in> set ps \<and> complianceIds ap port \<noteq> {} then Some (complianceIds ap port)
      else owaspIdsPerPort res port)"
  by (induction ps arbitrary: res) (simp_all add: analyse_port_owaspIds)

lemma severityMap_portAnalysis:
  "severityMap (portAnalysis ap) port =
     (if port \<in> set (ports ap) then Some (rank_label (min_rank (port_findings ap port)))
      else None)"
  by (simp add: portAnalysis_def fold_analyse_severityMap)

lemma owaspIds_portAnalysis:
  "owaspIdsPerPort (portAnalysis ap) port =
     (if port \<in> set (ports ap) \<and> complianceIds ap port \<noteq> {}
      then Some (complianceIds ap port) else None)"
  by (simp add: portAnalysis_def fold_analyse_owaspIds)

lemma severity_labels_known:
  "map_of SEVERITY_RANK (case severityMap (portAnalysis ap) port of
                            Some sev \<Rightarrow> sev | None \<Rightarrow> ''INFO'') \<noteq> None"
  by (simp add: severityMap_portAnalysis rank_label_rank min_rank_le)
    (simp add: SEVERITY_RANK_def)

lemma dominantSeverity_listed:
  "port \<in> set (ports ap) \<Longrightarrow>
   dominantSeverity ap port = rank_label (min_rank (port_findings ap port))"
  by (simp add: dominantSeverity_def severityMap_portAnalysis)

lemma rank_of_rank_label: "r \<le> RANK_INFO \<Longrightarrow> rank_of (rank_label r) = r"
  by (simp add: rank_of_def rank_label_rank)

subsection \<open>The example pass\<close>

lemma min_rank_map: "min_rank fs = Min (insert RANK_INFO (set (map rank_of (map severity fs))))"
  by (simp add: min_rank_def comp_def)

lemma example_ports: "ports example_pass = [8080, 22, 2222, 25, 9]"
  by (simp add: example_pass_def)

lemma example_results:
  "port_results example_pass 8080 =
     [JObj [(''findings'', JArr [JObj [(''severity'', JStr ''MEDIUM''), (''title'', JStr ''Server header''), (''owasp_id'', JStr ''A05'')]])],
      JObj [(''findings'', JArr [JObj [(''severity'', JStr ''CRITICAL''), (''title'', JStr ''Reflected XSS''), (''owasp_id'', JStr ''A03'')]])]]"
  "port_results example_pass 22 =
     [JStr ''SSH-2.0-OpenSSH_9.0'',
      JObj [(''banner'', JStr ''OpenSSH 9.0p1''),
            (''findings'', JArr [JObj [(''severity'', JStr ''high''), (''title'', JStr ''Weak MAC algorithm'')]])]]"
  "port_results example_pass 2222 =
     [JStr ''no handshake'',
      JObj [(''findings'', JArr [JObj [(''severity'', JStr ''low''), (''title'', JStr ''Banner disclosure'')]])]]"
  "port_results example_pass 25 = [JStr ''VULNERABILITY: open relay'']"
  "port_results example_pass 9 = []"
  by (simp_all add: port_results_def example_pass_def)


lemma example_severities:
  "map severity (port_findings example_pass 8080) = [''MEDIUM'', ''CRITICAL'']"
  "map severity (port_findings example_pass 22) = [''HIGH'']"
  "map severity (port_findings example_pass 2222) = [''LOW'']"
  "map severity (port_findings example_pass 25) = []"
  "map severity (port_findings example_pass 9) = []"
  unfolding port_findings_def example_results by code_simp+

lemma example_min_rank:
  "min_rank (port_findings example_pass 8080) = 0"
  "min_rank (port_findings example_pass 22) = 1"
  "min_rank (port_findings example_pass 2222) = 3"
  "min_rank (port_findings example_pass 25) = 4"
  "min_rank (port_findings example_pass 9) = 4"
  by (simp_all add: min_rank_map example_severities rank_of_def SEVERITY_RANK_def RANK_INFO_def)

lemma rank_label_values:
  "rank_label 0 = ''CRITICAL''" "rank_label (Suc 0) = ''HIGH''" "rank_label 2 = ''MEDIUM''"
  "rank_label 3 = ''LOW''" "rank_label 4 = ''INFO''"
  by (simp_all add: rank_label_def SEVERITY_RANK_def)

lemma example_dominant:
  "dominantSeverity example_pass 8080 = ''CRITICAL''"
  "dominantSeverity example_pass 22 = ''HIGH''"
  "dominantSeverity example_pass 2222 = ''LOW''"
  "dominantSeverity example_pass 25 = ''INFO''"
  "dominantSeverity example_pass 9 = ''INFO''"
  by (simp_all add: dominantSeverity_listed example_ports example_min_rank rank_label_values)

lemma example_protocols:
  "infer_protocol example_pass 22 = Some ''SSH''"
  "infer_protocol example_pass 2222 = Some ''SSH''"
  by (simp_all add: infer_protocol_def example_pass_def named_protocols_def map_filter_simps
      PROBE_TO_PROTOCOL_def)

lemma example_compliance:
  "List.map_filter owasp_id (port_findings example_pass 8080) = [''A05'', ''A03'']"
  unfolding port_findings_def example_results by code_simp

text \<open>
  C5. For a port of the pass, the dominant severity is a level of the rank table, and its
  rank is the minimum rank over all structured findings of all probe results of the port
  in both categories, \<^verbatim>\<open>INFO\<close> when there is no finding. On port 8080 of the example, a
  MEDIUM service finding and a CRITICAL web finding give CRITICAL.
\<close>

theorem dominant_severity_min_rank:
  assumes "port \<in> set (ports ap)"
  shows "map_of SEVERITY_RANK (dominantSeverity ap port) = Some (min_rank (port_findings ap port))"
  using assms by (simp add: dominantSeverity_listed rank_label_rank min_rank_le)

theorem dominant_severity_min_rank_witness:
  "8080 \<in> set (ports example_pass)
   \<and> map severity (port_findings example_pass 8080) = [''MEDIUM'', ''CRITICAL'']
   \<and> dominantSeverity example_pass 8080 = ''CRITICAL''"
proof -
  have h: "8080 \<in> set (ports example_pass)" by (simp add: example_ports)
  from dominant_severity_min_rank [OF h]
  have "dominantSeverity example_pass 8080 = ''CRITICAL''"
    by (simp add: example_min_rank SEVERITY_RANK_def split: if_splits)
  with h show ?thesis by (simp add: example_severities)
qed

text \<open>
  C6. A port is flagged non-standard exactly when a protocol was inferred from its service
  probes (the first probe name that maps to a protocol other than \<^verbatim>\<open>GENERIC\<close> and
  \<^verbatim>\<open>TLS\<close>) and the well-known-port table has no entry for the port or names another
  service. Port 2222 with SSH is flagged, port 22 with SSH is not.
\<close>

theorem non_standard_iff:
  "port \<in> nonStandard (portAnalysis ap) \<longleftrightarrow>
     port \<in> set (ports ap)
     \<and> (\<exists>proto. infer_protocol ap port = Some proto
           \<and> (map_of WELL_KNOWN_PORTS port = None
               \<or> map_of WELL_KNOWN_PORTS port \<noteq> Some proto))"
  by (simp add: portAnalysis_def fold_analyse_nonStandard)

theorem non_standard_iff_witness:
  "infer_protocol example_pass 2222 = Some ''SSH''
   \<and> 2222 \<in> nonStandard (portAnalysis example_pass)
   \<and> infer_protocol example_pass 22 = Some ''SSH''
   \<and> 22 \<notin> nonStandard (portAnalysis example_pass)"
  using non_standard_iff [of 2222 example_pass] non_standard_iff [of 22 example_pass]
  by (simp add: example_protocols example_ports WELL_KNOWN_PORTS_def)

text \<open>
  C10. A probe result without structured findings has top severity \<^verbatim>\<open>INFO\<close> and leaves
  the running minimum of its port unchanged, whatever its text or its vulnerability flag
  say; a port all of whose results are without findings has dominant severity
  \<^verbatim>\<open>INFO\<close>. The legacy text on port 25 of the example carries the marker, and the port
  stays at \<^verbatim>\<open>INFO\<close>.
\<close>

theorem zero_findings_rank_info:
  "(findings (normalizeProbeResult r) = [] \<longrightarrow>
      topSeverityFromResult r = RANK_INFO
      \<and> (bestSev s \<le> RANK_INFO \<longrightarrow> bestSev (tally_result r s) = bestSev s))
   \<and> (port \<in> set (ports ap)
        \<and> (\<forall>r' \<in> set (port_results ap port). findings (normalizeProbeResult r') = []) \<longrightarrow>
      dominantSeverity ap port = ''INFO'')"
proof -
  have "port_findings ap port = []"
    if "\<forall>r' \<in> set (port_results ap port). findings (normalizeProbeResult r') = []"
    using that by (simp add: port_findings_def)
  then have "dominantSeverity ap port = ''INFO''"
    if "port \<in> set (ports ap)"
      and "\<forall>r' \<in> set (port_results ap port). findings (normalizeProbeResult r') = []"
    using that by (simp add: dominantSeverity_listed min_rank_def rank_label_def
        RANK_INFO_def SEVERITY_RANK_def)
  then show ?thesis
    by (auto simp: topSeverity_no_findings tally_result_bestSev)
qed

theorem zero_findings_rank_info_witness:
  "findings (normalizeProbeResult (JStr ''VULNERABILITY: open relay'')) = []
   \<and> hasVulnerability (normalizeProbeResult (JStr ''VULNERABILITY: open relay''))
   \<and> topSeverityFromResult (JStr ''VULNERABILITY: open relay'') = RANK_INFO
   \<and> bestSev \<lparr> bestSev = 2, totalFindings = 0, detected = None, portOwaspIds = {},
                 counts = Map.empty \<rparr> \<le> RANK_INFO
   \<and> bestSev (tally_result (JStr ''VULNERABILITY: open relay'')
        \<lparr> bestSev = 2, totalFindings = 0, detected = None, portOwaspIds = {},
          counts = Map.empty \<rparr>) = 2
   \<and> 25 \<in> set (ports example_pass)
   \<and> port_results example_pass 25 = [JStr ''VULNERABILITY: open relay'']
   \<and> dominantSeverity example_pass 25 = ''INFO''"
proof -
  have f: "findings (normalizeProbeResult (JStr ''VULNERABILITY: open relay'')) = []"
    by code_simp
  have v: "hasVulnerability (normalizeProbeResult (JStr ''VULNERABILITY: open relay''))"
    by code_simp
  have p: "25 \<in> set (ports example_pass)"
    by (simp add: example_ports)
  have r: "port_results example_pass 25 = [JStr ''VULNERABILITY: open relay'']"
    by (simp add: port_results_def example_pass_def)
  show ?thesis
    using zero_findings_rank_info [of "JStr ''VULNERABILITY: open relay''"
        "\<lparr> bestSev = 2, totalFindings = 0, detected = None, portOwaspIds = {},
           counts = Map.empty \<rparr>" 25 example_pass]
      f v p r
    by (simp add: RANK_INFO_eq)
qed

section \<open>Properties of the filter and the sort\<close>

subsection \<open>The filter\<close>

lemma keep_port_iff:
  assumes "port \<in> set (ports ap)"
  shows "keep_port ap (portAnalysis ap) q port =
           (text_pred q port \<and> severity_pred ap q port \<and> category_pred ap q port
            \<and> compliance_pred ap q port)"
proof -
  have sev: "(case severityMap (portAnalysis ap) port of Some sev \<Rightarrow> sev | None \<Rightarrow> ''INFO'')
               = dominantSeverity ap port"
    by (simp add: dominantSeverity_def)
  have ids: "owaspIdsPerPort (portAnalysis ap) port =
               (if complianceIds ap port \<noteq> {} then Some (complianceIds ap port) else None)"
    using assms by (simp add: owaspIds_portAnalysis)
  show ?thesis
    unfolding keep_port_def sev ids text_pred_def severity_pred_def category_pred_def
      compliance_pred_def str_includes_def Let_def
    by auto
qed

text \<open>
  C7. The filter keeps, in the order of the pass, exactly the ports that satisfy all four
  predicates: the text predicate (the query is empty or a substring of the port's
  decimal text), the severity predicate (the set is empty or holds the port's dominant
  severity), the category predicate (the set is empty or one requested category among
  service data, web-test data and no data holds) and the compliance predicate (the set is
  empty or meets the compliance identifiers of the port's findings).
\<close>

theorem filter_is_conjunction:
  "filteredPorts ap q =
     filter (\<lambda>port. text_pred q port \<and> severity_pred ap q port \<and> category_pred ap q port
                     \<and> compliance_pred ap q port) (ports ap)"
  unfolding filteredPorts_def
  by (rule filter_cong) (simp_all add: keep_port_iff)

lemma digit_char_values:
  "digit_char 0 = CHR ''0''" "digit_char 1 = CHR ''1''" "digit_char 2 = CHR ''2''"
  "digit_char 3 = CHR ''3''" "digit_char 4 = CHR ''4''" "digit_char 5 = CHR ''5''"
  "digit_char 6 = CHR ''6''" "digit_char 7 = CHR ''7''" "digit_char 8 = CHR ''8''"
  "digit_char 9 = CHR ''9''"
  by code_simp+

lemma example_decimal:
  "decimal 8080 = ''8080''" "decimal 22 = ''22''" "decimal 2222 = ''2222''"
  "decimal 25 = ''25''" "decimal 9 = ''9''"
  by (simp_all add: decimal.simps digit_char_values)

lemma example_complianceIds: "complianceIds example_pass 8080 = {''A05'', ''A03''}"
  by (simp add: complianceIds_def example_compliance)

lemma example_web:
  "webTests example_pass 8080 \<noteq> None" "webTests example_pass 22 = None"
  "webTests example_pass 2222 = None" "webTests example_pass 25 = None"
  "webTests example_pass 9 = None"
  by (simp_all add: example_pass_def)

theorem filter_is_conjunction_witness:
  "filteredPorts example_pass critical_query = [8080]
   \<and> filteredPorts example_pass (no_filter Numeric) = ports example_pass"
proof -
  have a: "filteredPorts example_pass critical_query = [8080]"
    unfolding filter_is_conjunction [of example_pass critical_query]
    by (simp add: example_ports text_pred_def critical_query_def example_decimal sublist_code
        severity_pred_def example_dominant category_pred_def compliance_pred_def
        example_complianceIds example_web)
  have b: "filteredPorts example_pass (no_filter Numeric) = ports example_pass"
    unfolding filter_is_conjunction [of example_pass "no_filter Numeric"]
    by (simp add: text_pred_def severity_pred_def category_pred_def compliance_pred_def
        no_filter_def)
  from a b show ?thesis by simp
qed

subsection \<open>Sorting\<close>

lemma mset_insert_by: "mset (insert_by cmp x xs) = add_mset x (mset xs)"
  by (induction xs) simp_all

lemma mset_sort_by: "mset (sort_by cmp xs) = mset xs"
  by (induction xs) (simp_all add: sort_by_def mset_insert_by)

lemma set_insert_by: "set (insert_by cmp x xs) = insert x (set xs)"
  by (induction xs) auto

lemma sorted_insert_by:
  assumes trans: "\<And>a b c. cmp a b \<le> 0 \<Longrightarrow> cmp b c \<le> 0 \<Longrightarrow> cmp a c \<le> 0"
    and total: "\<And>a b. \<not> cmp a b \<le> 0 \<Longrightarrow> cmp b a \<le> 0"
    and sorted: "sorted_wrt (\<lambda>a b. cmp a b \<le> 0) xs"
  shows "sorted_wrt (\<lambda>a b. cmp a b \<le> 0) (insert_by cmp x xs)"
  using sorted
proof (induction xs)
  case Nil
  then show ?case by simp
next
  case (Cons y ys)
  show ?case
  proof (cases "cmp x y \<le> 0")
    case True
    with Cons.prems trans show ?thesis by auto
  next
    case False
    then have "cmp y x \<le> 0" by (rule total)
    with False Cons show ?thesis by (auto simp: set_insert_by)
  qed
qed

lemma sorted_sort_by:
  assumes "\<And>a b c. cmp a b \<le> 0 \<Longrightarrow> cmp b c \<le> 0 \<Longrightarrow> cmp a c \<le> 0"
    and "\<And>a b. \<not> cmp a b \<le> 0 \<Longrightarrow> cmp b a \<le> 0"
  shows "sorted_wrt (\<lambda>a b. cmp a b \<le> 0) (sort_by cmp xs)"
proof (induction xs)
  case Nil
  then show ?case by (simp add: sort_by_def)
next
  case (Cons x xs)
  have "sorted_wrt (\<lambda>a b. cmp a b \<le> 0) (insert_by cmp x (sort_by cmp xs))"
    using assms(1) assms(2) Cons.IH by (rule sorted_insert_by)
  then show ?case by (simp add: sort_by_def)
qed

lemma risk_cmp_before: "risk_cmp (portAnalysis ap) a b \<le> 0 \<longleftrightarrow> risk_before ap a b"
  by (auto simp: risk_cmp_def risk_before_def dominantSeverity_def Let_def)

lemma risk_mode_sorted:
  assumes "sortMode q = Risk"
  shows "sorted_wrt (risk_before ap) (sortedPorts ap q)
         \<and> mset (sortedPorts ap q) = mset (filteredPorts ap q)"
proof -
  have "sorted_wrt (\<lambda>a b. risk_cmp (portAnalysis ap) a b \<le> 0)
          (sort_by (risk_cmp (portAnalysis ap)) (filteredPorts ap q))"
    by (rule sorted_sort_by) (auto simp: risk_cmp_before risk_before_def)
  with assms show ?thesis
    by (simp add: sortedPorts_def mset_sort_by risk_cmp_before)
qed

lemma numeric_mode_keeps_order:
  assumes "sortMode q = Numeric"
  shows "sortedPorts ap q = filteredPorts ap q"
  using assms by (simp add: sortedPorts_def)

lemma example_no_filter: "filteredPorts example_pass (no_filter mode) = [8080, 22, 2222, 25, 9]"
  by (simp add: filteredPorts_def keep_port_def no_filter_def example_ports)

lemma example_risk_order:
  "sortedPorts example_pass (no_filter Risk) = [8080, 22, 2222, 9, 25]"
proof -
  have sev: "\<And>p. (case severityMap (portAnalysis example_pass) p of Some sev \<Rightarrow> sev | None \<Rightarrow> ''INFO'')
               = dominantSeverity example_pass p"
    by (simp add: dominantSeverity_def)
  have rk: "rank_of ''CRITICAL'' = 0" "rank_of ''HIGH'' = 1" "rank_of ''LOW'' = 3" "rank_of ''INFO'' = 4"
    by (simp_all add: rank_of_def SEVERITY_RANK_def)
  have m: "sortMode (no_filter Risk) = Risk" by (simp add: no_filter_def)
  show ?thesis
    by (simp add: sortedPorts_def m example_no_filter sort_by_def risk_cmp_def sev
        example_dominant rk)
qed

text \<open>
  C8. The risk mode orders the filtered ports by the rank of the dominant severity, the
  most severe first, and by port number among ports of one rank (lemma
  \<open>risk_mode_sorted\<close>, and \<open>example_risk_order\<close> on the example pass). The numeric
  mode is described as sorting the ports by number in ascending order, by the tooltip of
  its button and by the comment above \<^verbatim>\<open>sortedPorts\<close>, but its branch returns the
  filtered ports without sorting them: on the example pass, whose ports are listed out
  of order, the result of the numeric mode is out of order.
\<close>

theorem numeric_mode_unsorted:
  "sortedPorts example_pass (no_filter Numeric) = [8080, 22, 2222, 25, 9]
   \<and> \<not> sorted (sortedPorts example_pass (no_filter Numeric))"
proof -
  have m: "sortMode (no_filter Numeric) = Numeric" by (simp add: no_filter_def)
  show ?thesis by (simp add: sortedPorts_def m example_no_filter)
qed

end
